theory Spec2Isabelle
  imports Complex_Main "HOL-Library.Word"
begin

unbundle bit_operations_syntax

section \<open>Errors raised by the modelled Python code\<close>

datatype error = OutOfRange | IndexError | StructError | SystemExit

text \<open>Sequencing of fallible steps: the first raised error ends the computation.\<close>

definition and_then :: "error + 'a \<Rightarrow> ('a \<Rightarrow> error + 'b) \<Rightarrow> error + 'b" where
  "and_then r f = (case r of Inl e \<Rightarrow> Inl e | Inr x \<Rightarrow> f x)"

section \<open>The register store (railway\_plc\_server.py)\<close>

text \<open>
  The slave context built in \<^verbatim>\<open>main\<close> holds a coil block and a holding-register block,
  both zero-based (\<^verbatim>\<open>zero_mode=True\<close>). Register values are Python integers.
  The scan only uses function code 1 (coils) and 3 (holding registers), so the discrete-input
  and input-register blocks are left out.
\<close>

record store =
  co :: "int list"
  hr :: "int list"

text \<open>
  Modelled from the spec: the data-block accessors \<^verbatim>\<open>getValues\<close> and \<^verbatim>\<open>setValues\<close>
  belong to the pymodbus library, which is not part of the sources. The specification gives
  their contract: \<open>read(kind, address, count)\<close> and \<open>write(kind, address, values)\<close> both
  fail with \<open>OutOfRange\<close> if any accessed address exceeds the capacity of the region, and the
  regions are never resized.
\<close>

definition getValues :: "int list \<Rightarrow> nat \<Rightarrow> nat \<Rightarrow> error + int list" where
  "getValues blk addr cnt =
     (if addr + cnt \<le> length blk then Inr (take cnt (drop addr blk)) else Inl OutOfRange)"

definition setValues :: "int list \<Rightarrow> nat \<Rightarrow> int list \<Rightarrow> error + int list" where
  "setValues blk addr vs =
     (if addr + length vs \<le> length blk
      then Inr (take addr blk @ vs @ drop (addr + length vs) blk)
      else Inl OutOfRange)"

text \<open>Python's \<^verbatim>\<open>xs[0]\<close>: raises on an empty list.\<close>

definition first_item :: "int list \<Rightarrow> error + int" where
  "first_item vals = (case vals of v # _ \<Rightarrow> Inr v | [] \<Rightarrow> Inl IndexError)"

subsection \<open>Address map\<close>

definition CO_TURNOUT_MAIN :: nat where "CO_TURNOUT_MAIN = 0"
definition CO_ESTOP :: nat where "CO_ESTOP = 1"
definition HR_SIG_AB :: nat where "HR_SIG_AB = 0"
definition HR_SIG_BC :: nat where "HR_SIG_BC = 1"
definition HR_SIG_SB :: nat where "HR_SIG_SB = 2"
definition HR_IN_OCC_A :: nat where "HR_IN_OCC_A = 100"
definition HR_IN_OCC_B :: nat where "HR_IN_OCC_B = 101"
definition HR_IN_OCC_C :: nat where "HR_IN_OCC_C = 102"
definition HR_IN_CRASH :: nat where "HR_IN_CRASH = 103"
definition HR_MODE :: nat where "HR_MODE = 50"

subsection \<open>Accessors\<close>

definition b :: "int \<Rightarrow> int" where
  "b v = (if v \<noteq> 0 then 1 else 0)"

definition clamp01 :: "int \<Rightarrow> int" where
  "clamp01 v = (if v \<noteq> 0 then 1 else 0)"

definition hr_get :: "store \<Rightarrow> nat \<Rightarrow> error + int" where
  "hr_get s addr = and_then (getValues (hr s) addr 1) first_item"

definition hr_set :: "store \<Rightarrow> nat \<Rightarrow> int \<Rightarrow> error + store" where
  "hr_set s addr v = and_then (setValues (hr s) addr [v]) (\<lambda>blk. Inr (s\<lparr>hr := blk\<rparr>))"

definition co_get :: "store \<Rightarrow> nat \<Rightarrow> error + int" where
  "co_get s addr = and_then (getValues (co s) addr 1) first_item"

definition co_set :: "store \<Rightarrow> nat \<Rightarrow> int \<Rightarrow> error + store" where
  "co_set s addr v = and_then (setValues (co s) addr [b v]) (\<lambda>blk. Inr (s\<lparr>co := blk\<rparr>))"

record Inputs =
  occA :: int
  occB :: int
  occC :: int
  crash :: int

definition read_inputs :: "store \<Rightarrow> error + Inputs" where
  "read_inputs s =
     and_then (hr_get s HR_IN_OCC_A) (\<lambda>a.
     and_then (hr_get s HR_IN_OCC_B) (\<lambda>b1.
     and_then (hr_get s HR_IN_OCC_C) (\<lambda>c.
     and_then (hr_get s HR_IN_CRASH) (\<lambda>cr.
       Inr \<lparr>occA = b a, occB = b b1, occC = b c, crash = b cr\<rparr>))))"

subsection \<open>One scan of the interlocking logic\<close>

definition plc_logic_scan :: "store \<Rightarrow> error + store" where
  "plc_logic_scan s =
     and_then (hr_get s HR_MODE) (\<lambda>m.
     let mode = clamp01 m in
     and_then (read_inputs s) (\<lambda>ins.
     if crash ins \<noteq> 0 then
       and_then (co_set s CO_ESTOP 1) (\<lambda>s1.
       and_then (hr_set s1 HR_SIG_AB 0) (\<lambda>s2.
       and_then (hr_set s2 HR_SIG_BC 0) (\<lambda>s3.
       hr_set s3 HR_SIG_SB 0)))
     else
       and_then (co_set s CO_ESTOP 0) (\<lambda>s1.
       and_then (co_get s1 CO_TURNOUT_MAIN) (\<lambda>c.
       let turnout_main0 = (if c \<noteq> 0 then 1 else 0 :: int) in
       and_then
         (if occB ins \<noteq> 0
          then and_then (co_set s1 CO_TURNOUT_MAIN 1) (\<lambda>s2. Inr (1, s2))
          else Inr (turnout_main0, s1))
         (\<lambda>(turnout_main, s2).
       if mode = 1 then
         and_then (hr_get s2 HR_SIG_AB) (\<lambda>v0.
         and_then (hr_set s2 HR_SIG_AB (clamp01 v0)) (\<lambda>s3.
         and_then (hr_get s3 HR_SIG_BC) (\<lambda>v1.
         and_then (hr_set s3 HR_SIG_BC (clamp01 v1)) (\<lambda>s4.
         and_then (hr_get s4 HR_SIG_SB) (\<lambda>v2.
         hr_set s4 HR_SIG_SB (clamp01 v2))))))
       else
         let sig_ab = (if occB ins = 0 then 1 else 0 :: int);
             sig_bc = (if occC ins = 0 then 1 else 0 :: int);
             sig_sb = (if turnout_main = 1 \<and> occB ins = 0 then 1 else 0 :: int) in
         and_then (hr_set s2 HR_SIG_AB sig_ab) (\<lambda>s3.
         and_then (hr_set s3 HR_SIG_BC sig_bc) (\<lambda>s4.
         hr_set s4 HR_SIG_SB sig_sb)))))))"

text \<open>
  The scan loop runs \<^verbatim>\<open>plc_logic_scan\<close> on the same store once per cycle; \<open>scan_loop n\<close>
  is the store after \<open>n\<close> consecutive cycles (an exception ends the loop's thread).
\<close>

fun scan_loop :: "nat \<Rightarrow> store \<Rightarrow> error + store" where
  "scan_loop 0 s = Inr s"
| "scan_loop (Suc n) s = and_then (plc_logic_scan s) (scan_loop n)"

text \<open>The store that \<^verbatim>\<open>main\<close> creates: 200 coils and 300 holding registers, all zero,
  then the defaults (turnout to main).\<close>

definition main_store :: store where
  "main_store = \<lparr>co = (replicate 200 0)[0 := 1], hr = replicate 300 0\<rparr>"

text \<open>A store is large enough for the scan when it holds every address of the address map.\<close>

definition scan_capacity :: "store \<Rightarrow> bool" where
  "scan_capacity s = (HR_IN_CRASH < length (hr s) \<and> CO_ESTOP < length (co s))"

section \<open>The frame-rewriting gateway (modbus\_gateway\_console2.py)\<close>

text \<open>
  A transport buffer is a list of bytes. The protected register is \<^verbatim>\<open>SIG_BC_HR_ADDR\<close>,
  holding register 1.
\<close>

type_synonym byte = "8 word"

definition SIG_BC_HR_ADDR :: nat where "SIG_BC_HR_ADDR = 1"
definition UNIT_ID :: nat where "UNIT_ID = 1"

text \<open>
  \<^verbatim>\<open>struct.unpack_from\<close> with the big-endian formats the gateway uses. It raises
  \<^verbatim>\<open>struct.error\<close> when the buffer holds too few bytes after the offset.
\<close>

definition be16 :: "byte list \<Rightarrow> nat \<Rightarrow> nat" where
  "be16 bs off = unat (bs ! off) * 256 + unat (bs ! (off + 1))"

definition unpack_HHHB :: "byte list \<Rightarrow> nat \<Rightarrow> error + (nat \<times> nat \<times> nat \<times> nat)" where
  "unpack_HHHB buf off =
     (if off + 7 \<le> length buf
      then Inr (be16 buf off, be16 buf (off + 2), be16 buf (off + 4), unat (buf ! (off + 6)))
      else Inl StructError)"

definition unpack_HH :: "byte list \<Rightarrow> nat \<Rightarrow> error + (nat \<times> nat)" where
  "unpack_HH buf off =
     (if off + 4 \<le> length buf then Inr (be16 buf off, be16 buf (off + 2)) else Inl StructError)"

definition set_item :: "byte list \<Rightarrow> nat \<Rightarrow> byte \<Rightarrow> error + byte list" where
  "set_item buf i v = (if i < length buf then Inr (buf[i := v]) else Inl IndexError)"

text \<open>
  The body of the \<^verbatim>\<open>while\<close> loop of \<^verbatim>\<open>process_modbus_payload\<close> from the point where
  \<^verbatim>\<open>frame\<close> has been cut out of the buffer: \<^verbatim>\<open>pdu = frame[7:]\<close>, \<^verbatim>\<open>pdu[0]\<close> raises
  on an empty PDU, a write-multiple request covering the protected register has two PDU bytes
  overwritten (each item assignment raises when out of range), and \<^verbatim>\<open>frame[7:] = pdu\<close>
  puts the PDU back.
\<close>

definition process_frame :: "byte list \<Rightarrow> error + byte list" where
  "process_frame frame =
     (let pdu = drop 7 frame in
      case pdu of
        [] \<Rightarrow> Inl IndexError
      | func_code # _ \<Rightarrow>
          if func_code = 16 then
            and_then (unpack_HH pdu 1) (\<lambda>(start_addr, qty).
              if start_addr \<le> SIG_BC_HR_ADDR \<and> SIG_BC_HR_ADDR < start_addr + qty then
                let val_offset = 6 + (SIG_BC_HR_ADDR - start_addr) * 2 in
                and_then (set_item pdu val_offset 0x00) (\<lambda>pdu1.
                and_then (set_item pdu1 (val_offset + 1) 0x01) (\<lambda>pdu2.
                Inr (take 7 frame @ pdu2)))
              else Inr frame)
          else Inr frame)"

text \<open>
  The loop itself. \<^verbatim>\<open>offset <= len(view) - 7\<close> is an integer comparison whose right side may be
  negative. The slice \<^verbatim>\<open>view[offset : offset + total_frame_len]\<close> is clamped to the buffer.
  The function returns the output, or the exception raised, together with the global
  \<^verbatim>\<open>latest_transaction_id\<close>, which is updated before the frame is looked at.
\<close>

function process_loop ::
  "byte list \<Rightarrow> nat \<Rightarrow> byte list \<Rightarrow> nat \<Rightarrow> (error + byte list) \<times> nat" where
  "process_loop view offset output latest =
     (if int offset \<le> int (length view) - 7 then
        case unpack_HHHB view offset of
          Inl e \<Rightarrow> (Inl e, latest)
        | Inr (tid, pid, len, unit) \<Rightarrow>
            let total_frame_len = 6 + len;
                frame = take total_frame_len (drop offset view)
            in (case process_frame frame of
                  Inl e \<Rightarrow> (Inl e, tid)
                | Inr frame' \<Rightarrow>
                    process_loop view (offset + total_frame_len) (output @ frame') tid)
      else (Inr output, latest))"
  by pat_completeness auto
termination
  by (relation "measure (\<lambda>(view, offset, output, latest). length view - offset)") auto

definition process_modbus_payload :: "nat \<Rightarrow> byte list \<Rightarrow> (error + byte list) \<times> nat" where
  "process_modbus_payload latest_transaction_id data = process_loop data 0 [] latest_transaction_id"

text \<open>
  The injector console: \<^verbatim>\<open>struct.pack\<close> with the format \<^verbatim>\<open>>HHHBBHH\<close> (it raises when a value
  does not fit its field), the transaction identifier it computes, and the packet it sends for
  the commands \<^verbatim>\<open>g\<close> (\<open>val = 1\<close>) and \<^verbatim>\<open>r\<close> (\<open>val = 0\<close>).
\<close>

definition pack_H :: "nat \<Rightarrow> error + byte list" where
  "pack_H n = (if n \<le> 65535 then Inr [of_nat (n div 256), of_nat (n mod 256)] else Inl StructError)"

definition pack_B :: "nat \<Rightarrow> error + byte list" where
  "pack_B n = (if n \<le> 255 then Inr [of_nat n] else Inl StructError)"

definition manual_tid :: "nat \<Rightarrow> nat" where
  "manual_tid latest_transaction_id = (latest_transaction_id + 1) mod 65535"

definition manual_packet :: "nat \<Rightarrow> nat \<Rightarrow> error + byte list" where
  "manual_packet latest_transaction_id val =
     (let tid = manual_tid latest_transaction_id in
      and_then (pack_H tid) (\<lambda>b_tid.
      and_then (pack_H 0) (\<lambda>b_pid.
      and_then (pack_H 6) (\<lambda>b_len.
      and_then (pack_B UNIT_ID) (\<lambda>b_unit.
      and_then (pack_B 6) (\<lambda>b_fc.
      and_then (pack_H SIG_BC_HR_ADDR) (\<lambda>b_addr.
      and_then (pack_H val) (\<lambda>b_val.
        Inr (b_tid @ b_pid @ b_len @ b_unit @ b_fc @ b_addr @ b_val)))))))))"

section \<open>The simulator's communication loop (railway\_pygame\_final.py)\<close>

definition HR_OVR_OCC_BASE :: nat where "HR_OVR_OCC_BASE = 110"

definition PLC_POLL_SEC :: real where "PLC_POLL_SEC = 1 / 10"
definition WAIT_SEC :: real where "WAIT_SEC = 3"
definition CRASH_DURATION :: real where "CRASH_DURATION = 12 / 10"
definition RED :: int where "RED = 0"
definition GREEN :: int where "GREEN = 1"

subsection \<open>The remote side as seen by \<^verbatim>\<open>PlcClient\<close>\<close>

text \<open>
  Every call the simulator makes on the Modbus client is recorded as a \<open>remote_op\<close>. What
  the remote side answers is not under the simulator's control: the environment gives, for the
  \<open>n\<close>-th call, whether a connection attempt succeeds and what a request returns (a
  response with values, an error response, or an exception, which makes the wrapper mark the
  client disconnected), and the value of each later reading of the wall clock. The wrapper
  retries a request with the keyword \<^verbatim>\<open>unit=\<close> when the library rejects \<^verbatim>\<open>slave=\<close>; both
  spell the same request, which is recorded once. The library is taken to be installed.
\<close>

datatype remote_op =
    Connect
  | Close
  | ReadCoils nat nat
  | ReadHolding nat nat
  | WriteRegisters nat "int list"
  | WriteCoils nat "int list"

datatype reply = Values "int list" | ErrorResponse | Failure

record env =
  connect_ok :: "nat \<Rightarrow> bool"
  reply_to :: "nat \<Rightarrow> reply"
  clock :: "nat \<Rightarrow> real"

record io =
  connected :: bool
  trace :: "remote_op list"
  calls :: nat
  time_reads :: nat

definition time_time :: "env \<Rightarrow> io \<Rightarrow> real \<times> io" where
  "time_time E io = (clock E (time_reads io), io\<lparr>time_reads := time_reads io + 1\<rparr>)"

definition issue :: "env \<Rightarrow> remote_op \<Rightarrow> io \<Rightarrow> reply \<times> io" where
  "issue E rop io = (reply_to E (calls io), io\<lparr>trace := trace io @ [rop], calls := calls io + 1\<rparr>)"

definition plc_connect :: "env \<Rightarrow> io \<Rightarrow> io" where
  "plc_connect E io =
     io\<lparr>connected := connect_ok E (calls io), trace := trace io @ [Connect], calls := calls io + 1\<rparr>"

definition plc_close :: "io \<Rightarrow> io" where
  "plc_close io = io\<lparr>connected := False, trace := trace io @ [Close]\<rparr>"

definition read_coils_basic :: "env \<Rightarrow> io \<Rightarrow> (int \<times> int) \<times> io" where
  "read_coils_basic E io =
     (if \<not> connected io then ((1, 0), io)
      else case issue E (ReadCoils CO_TURNOUT_MAIN 2) io of
        (Values bits, io1) \<Rightarrow>
          (case bits of
             [] \<Rightarrow> ((1, 0), io1\<lparr>connected := False\<rparr>)
           | [tm] \<Rightarrow> ((tm, 0), io1\<lparr>connected := False\<rparr>)
           | tm # es # _ \<Rightarrow> ((tm, es), io1))
      | (ErrorResponse, io1) \<Rightarrow> ((1, 0), io1)
      | (Failure, io1) \<Rightarrow> ((1, 0), io1\<lparr>connected := False\<rparr>))"

definition read_holding :: "env \<Rightarrow> nat \<Rightarrow> nat \<Rightarrow> io \<Rightarrow> int list option \<times> io" where
  "read_holding E addr cnt io =
     (if \<not> connected io then (None, io)
      else case issue E (ReadHolding addr cnt) io of
        (Values regs, io1) \<Rightarrow> (Some regs, io1)
      | (ErrorResponse, io1) \<Rightarrow> (None, io1)
      | (Failure, io1) \<Rightarrow> (None, io1\<lparr>connected := False\<rparr>))"

definition write_registers :: "env \<Rightarrow> nat \<Rightarrow> int list \<Rightarrow> io \<Rightarrow> bool \<times> io" where
  "write_registers E addr vals io =
     (if \<not> connected io then (False, io)
      else case issue E (WriteRegisters addr vals) io of
        (Failure, io1) \<Rightarrow> (False, io1\<lparr>connected := False\<rparr>)
      | (_, io1) \<Rightarrow> (True, io1))"

definition write_inputs :: "env \<Rightarrow> int \<Rightarrow> int \<Rightarrow> int \<Rightarrow> int \<Rightarrow> io \<Rightarrow> bool \<times> io" where
  "write_inputs E oa ob oc cr io = write_registers E HR_IN_OCC_A [oa, ob, oc, cr] io"

definition write_signals :: "env \<Rightarrow> int \<Rightarrow> int \<Rightarrow> int \<Rightarrow> io \<Rightarrow> bool \<times> io" where
  "write_signals E ab bc sb io = write_registers E HR_SIG_AB [ab, bc, sb] io"

definition write_crash_only :: "env \<Rightarrow> int \<Rightarrow> io \<Rightarrow> bool \<times> io" where
  "write_crash_only E crash_bit io =
     write_registers E HR_IN_CRASH [if crash_bit \<noteq> 0 then 1 else 0] io"

definition toggle_turnout :: "env \<Rightarrow> io \<Rightarrow> io" where
  "toggle_turnout E io =
     (if \<not> connected io then io
      else case issue E (ReadCoils CO_TURNOUT_MAIN 1) io of
        (Values bits, io1) \<Rightarrow>
          (case bits of
             [] \<Rightarrow> io1\<lparr>connected := False\<rparr>
           | cur # _ \<Rightarrow>
               (case issue E (WriteCoils CO_TURNOUT_MAIN [if cur \<noteq> 0 then 0 else 1]) io1 of
                  (Failure, io2) \<Rightarrow> io2\<lparr>connected := False\<rparr>
                | (_, io2) \<Rightarrow> io2))
      | (ErrorResponse, io1) \<Rightarrow> io1
      | (Failure, io1) \<Rightarrow> io1\<lparr>connected := False\<rparr>)"

subsection \<open>The state of \<^verbatim>\<open>main\<close>\<close>

text \<open>
  The local variables of \<^verbatim>\<open>main\<close> that the communication code reads or writes. Of a train
  only its location, its moving flag and its destination are kept: the pixel coordinates and the
  sprites are rendering state.
\<close>

datatype loc = A | B | C | S | CRASH

record train =
  loc :: loc
  moving :: bool
  dest :: "loc option"

datatype auto_state =
    AUTO_INIT_WAIT | AUTO_T1_A_TO_C | AUTO_T2_S_TO_B | AUTO_WAIT_AT_B
  | AUTO_T2_B_TO_S | AUTO_T1_C_TO_A | AUTO_WAIT_AT_A

record sim =
  mode_auto :: bool
  scada_mode_manual :: bool
  need_resync :: bool
  prev_comms_enabled :: bool
  auto_write_hold_until :: real
  sig_ab :: int
  sig_bc :: int
  sig_sb :: int
  turnout_to_main :: bool
  estop :: int
  occ_A :: int
  occ_B :: int
  occ_C :: int
  occ_S :: int
  crash_active :: bool
  crash_start :: real
  crash_sent_to_plc :: bool
  t1_claims_b_until :: real
  auto_st :: auto_state
  wait_until :: real
  T1 :: train
  T2 :: train
  last_plc :: real

definition effective_manual :: "sim \<Rightarrow> bool" where
  "effective_manual st = (if crash_active st then False else (\<not> mode_auto st) \<or> scada_mode_manual st)"

definition in_wait_window :: "sim \<Rightarrow> real \<Rightarrow> bool" where
  "in_wait_window st now_t = (if crash_active st then False else now_t < wait_until st)"

definition comms_enabled :: "sim \<Rightarrow> real \<Rightarrow> bool" where
  "comms_enabled st now_t = (if crash_active st then True else \<not> in_wait_window st now_t)"

definition set_all_signals_red :: "sim \<Rightarrow> sim" where
  "set_all_signals_red st = st\<lparr>sig_ab := RED, sig_bc := RED, sig_sb := RED\<rparr>"

definition reconnect :: "env \<Rightarrow> io \<Rightarrow> io" where
  "reconnect E io = (if \<not> connected io then plc_connect E (plc_close io) else io)"

definition sync_from_plc_apply :: "env \<Rightarrow> sim \<times> io \<Rightarrow> (error + bool) \<times> sim \<times> io" where
  "sync_from_plc_apply E = (\<lambda>(st, io).
     let io0 = reconnect E io in
     if \<not> connected io0 then (Inr False, st, io0)
     else
       let ((tm, es), io1) = read_coils_basic E io0;
           st1 = st\<lparr>turnout_to_main := (tm \<noteq> 0), estop := es\<rparr>;
           (regs_mode, io2) = read_holding E HR_MODE 1 io1
       in case (case regs_mode of
                  None \<Rightarrow> Inr st1
                | Some [] \<Rightarrow> Inl IndexError
                | Some (m # _) \<Rightarrow> Inr (st1\<lparr>scada_mode_manual := (m \<noteq> 0)\<rparr>)) of
            Inl e \<Rightarrow> (Inl e, st1, io2)
          | Inr st2 \<Rightarrow>
              let (regs_sig, io3) = read_holding E HR_SIG_AB 3 io2;
                  st3 = (case regs_sig of
                           Some (r0 # r1 # r2 # _) \<Rightarrow>
                             st2\<lparr>sig_ab := r0 AND 1, sig_bc := r1 AND 1, sig_sb := r2 AND 1\<rparr>
                         | _ \<Rightarrow> st2);
                  (regs_occ, io4) = read_holding E HR_OVR_OCC_BASE 4 io3;
                  st4 = (case regs_occ of
                           Some (o0 # o1 # o2 # o3 # _) \<Rightarrow>
                             st3\<lparr>occ_A := o0 AND 1, occ_B := o1 AND 1,
                                 occ_C := o2 AND 1, occ_S := o3 AND 1\<rparr>
                         | _ \<Rightarrow> st3)
              in (Inr True, st4, io4))"

definition recompute_occ_auto :: "sim \<Rightarrow> sim" where
  "recompute_occ_auto st =
     st\<lparr>occ_A := (if loc (T1 st) = A then 1 else 0),
        occ_C := (if loc (T1 st) = C then 1 else 0),
        occ_B := (if loc (T1 st) = B \<or> loc (T2 st) = B then 1 else 0),
        occ_S := (if loc (T2 st) = S then 1 else 0)\<rparr>"

definition reset_all :: "env \<Rightarrow> sim \<times> io \<Rightarrow> sim \<times> io" where
  "reset_all E = (\<lambda>(st, io).
     let st1 = set_all_signals_red (st\<lparr>crash_active := False, crash_sent_to_plc := False,
                                       crash_start := 0\<rparr>);
         st2 = st1\<lparr>mode_auto := True, scada_mode_manual := False, t1_claims_b_until := 0,
                   auto_write_hold_until := 0\<rparr>;
         st3 = st2\<lparr>T1 := (T1 st2)\<lparr>loc := A, moving := False, dest := None\<rparr>,
                   T2 := (T2 st2)\<lparr>loc := S, moving := False, dest := None\<rparr>\<rparr>;
         st4 = recompute_occ_auto st3;
         (t, io1) = time_time E io
     in (st4\<lparr>auto_st := AUTO_INIT_WAIT, wait_until := t + WAIT_SEC\<rparr>, io1))"

subsection \<open>One pass through the loop body\<close>

text \<open>
  The sections of the loop body that call \<^verbatim>\<open>PlcClient\<close>, in source order: the crash push,
  the polling block, the event handling and the crash reset. The telemetry broadcast before them
  and the movement, signalling and drawing code after them make no call on the client.
  \<open>now\<close> is the clock value read at the top of the pass and \<open>evs\<close> the events that
  \<^verbatim>\<open>pygame.event.get()\<close> returns. An uncaught exception (an index error on an empty register
  list, or \<^verbatim>\<open>sys.exit()\<close>) ends the pass.
\<close>

definition crash_push :: "env \<Rightarrow> sim \<times> io \<Rightarrow> sim \<times> io" where
  "crash_push E = (\<lambda>(st, io).
     if crash_active st \<and> \<not> crash_sent_to_plc st then
       let io1 = reconnect E io in
       if connected io1 then
         let (_, io2) = write_crash_only E 1 io1 in (st\<lparr>crash_sent_to_plc := True\<rparr>, io2)
       else (st, io1)
     else (st, io))"

definition plc_comms :: "env \<Rightarrow> real \<Rightarrow> bool \<Rightarrow> sim \<times> io \<Rightarrow> error option \<times> sim \<times> io" where
  "plc_comms E now comms_on = (\<lambda>(st, io).
     if comms_on \<and> now - last_plc st \<ge> PLC_POLL_SEC then
       let st1 = st\<lparr>last_plc := now\<rparr>;
           io1 = reconnect E io
       in case (if need_resync st1 \<and> \<not> crash_active st1 then
                  (case sync_from_plc_apply E (st1, io1) of
                     (Inl e, st2, io2) \<Rightarrow> (Some e, st2, io2)
                   | (Inr ok, st2, io2) \<Rightarrow>
                       if ok then
                         let (t, io3) = time_time E io2
                         in (None, st2\<lparr>auto_write_hold_until := t + 5 / 10,
                                       need_resync := False\<rparr>, io3)
                       else (None, st2\<lparr>need_resync := False\<rparr>, io2))
                else (None, st1, io1)) of
            (Some e, st2, io2) \<Rightarrow> (Some e, st2, io2)
          | (None, st2, io2) \<Rightarrow>
              if connected io2 then
                let ((tm, es), io3) = read_coils_basic E io2;
                    st3 = st2\<lparr>turnout_to_main := (tm \<noteq> 0), estop := es\<rparr>;
                    (m, io4) = read_holding E HR_MODE 1 io3
                in case (case m of
                           None \<Rightarrow> Inr st3
                         | Some [] \<Rightarrow> Inl IndexError
                         | Some (v # _) \<Rightarrow> Inr (st3\<lparr>scada_mode_manual := (v \<noteq> 0)\<rparr>)) of
                     Inl e \<Rightarrow> (Some e, st3, io4)
                   | Inr st4 \<Rightarrow>
                       (case (if effective_manual st4 \<and> \<not> crash_active st4 then
                                (case sync_from_plc_apply E (st4, io4) of
                                   (Inl e, st5, io5) \<Rightarrow> (Some e, st5, io5)
                                 | (Inr _, st5, io5) \<Rightarrow> (None, st5, io5))
                              else (None, st4, io4)) of
                          (Some e, st5, io5) \<Rightarrow> (Some e, st5, io5)
                        | (None, st5, io5) \<Rightarrow>
                            if \<not> effective_manual st5 \<and> \<not> crash_active st5 then
                              let (t, io6) = time_time E io5 in
                              if t \<ge> auto_write_hold_until st5 then
                                let st6 = recompute_occ_auto st5;
                                    (_, io7) = write_inputs E (occ_A st6) (occ_B st6) (occ_C st6) 0 io6;
                                    (_, io8) = write_signals E (sig_ab st6) (sig_bc st6) (sig_sb st6) io7
                                in (None, st6, io8)
                              else (None, st5, io6)
                            else (None, st5, io5))
              else (None, st2, io2)
     else (None, st, io))"

datatype key = K_ESCAPE | K_SPACE | K_m | K_t | K_other

datatype event = QUIT | KEYDOWN key | OTHER_EVENT

definition handle_event :: "env \<Rightarrow> bool \<Rightarrow> event \<Rightarrow> sim \<times> io \<Rightarrow> error option \<times> sim \<times> io" where
  "handle_event E comms_on ev = (\<lambda>(st, io).
     case ev of
       QUIT \<Rightarrow> (Some SystemExit, st, plc_close io)
     | KEYDOWN k \<Rightarrow>
         (case k of
            K_ESCAPE \<Rightarrow> (Some SystemExit, st, plc_close io)
          | K_SPACE \<Rightarrow> (let (st1, io1) = reset_all E (st, io) in (None, st1, io1))
          | K_m \<Rightarrow>
              if \<not> crash_active st then
                let st1 = st\<lparr>mode_auto := \<not> mode_auto st\<rparr>
                in (None, if mode_auto st1 then st1\<lparr>need_resync := True\<rparr> else st1, io)
              else (None, st, io)
          | K_t \<Rightarrow>
              if comms_on \<and> \<not> crash_active st then (None, st, toggle_turnout E io)
              else (None, st, io)
          | K_other \<Rightarrow> (None, st, io))
     | OTHER_EVENT \<Rightarrow> (None, st, io))"

fun handle_events :: "env \<Rightarrow> bool \<Rightarrow> event list \<Rightarrow> sim \<times> io \<Rightarrow> error option \<times> sim \<times> io" where
  "handle_events E comms_on [] (st, io) = (None, st, io)"
| "handle_events E comms_on (ev # evs) (st, io) =
     (case handle_event E comms_on ev (st, io) of
        (Some e, st1, io1) \<Rightarrow> (Some e, st1, io1)
      | (None, st1, io1) \<Rightarrow> handle_events E comms_on evs (st1, io1))"

definition crash_reset :: "env \<Rightarrow> real \<Rightarrow> sim \<times> io \<Rightarrow> sim \<times> io" where
  "crash_reset E now = (\<lambda>(st, io).
     if crash_active st \<and> now - crash_start st \<ge> CRASH_DURATION then
       let io1 = reconnect E io;
           io2 = (if connected io1 then snd (write_crash_only E 0 io1) else io1)
       in reset_all E (st, io2)
     else (st, io))"

definition loop_tick :: "env \<Rightarrow> real \<Rightarrow> event list \<Rightarrow> sim \<times> io \<Rightarrow> error option \<times> sim \<times> io" where
  "loop_tick E now evs = (\<lambda>(st, io).
     let comms_on = comms_enabled st now;
         st1 = st\<lparr>need_resync := (need_resync st \<or> (\<not> prev_comms_enabled st \<and> comms_on)),
                 prev_comms_enabled := comms_on\<rparr>;
         (st2, io2) = crash_push E (st1, io)
     in case plc_comms E now comms_on (st2, io2) of
          (Some e, st3, io3) \<Rightarrow> (Some e, st3, io3)
        | (None, st3, io3) \<Rightarrow>
            (case handle_events E comms_on evs (st3, io3) of
               (Some e, st4, io4) \<Rightarrow> (Some e, st4, io4)
             | (None, st4, io4) \<Rightarrow>
                 (let (st5, io5) = crash_reset E now (st4, io4) in (None, st5, io5))))"

section \<open>Notions used to state the properties\<close>

text \<open>
  \<open>emits_only R io io'\<close>: between the two client states the trace grew by operations of
  \<open>R\<close> only.
\<close>

definition emits_only :: "remote_op set \<Rightarrow> io \<Rightarrow> io \<Rightarrow> bool" where
  "emits_only R io io' = (\<exists>ops. trace io' = trace io @ ops \<and> set ops \<subseteq> R)"

text \<open>
  A frame is the six header bytes up to and including the length field, followed by as many
  bytes as the length field says. A frame covers the protected register when it is a
  write-multiple-registers request whose range \<open>[start, start + quantity)\<close> contains
  \<^verbatim>\<open>SIG_BC_HR_ADDR\<close>; the two bytes of that register's value then sit at
  \<open>value_index\<close> in the frame (13 bytes of header, function code, start, quantity and byte
  count come first). A well-formed frame carries a function code, a write-multiple-registers
  frame carries its start and quantity fields, and a frame that covers the protected register
  carries that register's value bytes.
\<close>

definition complete_frame :: "byte list \<Rightarrow> bool" where
  "complete_frame f = (7 \<le> length f \<and> length f = 6 + be16 f 4)"

definition covers_protected :: "byte list \<Rightarrow> bool" where
  "covers_protected f =
     (f ! 7 = 16 \<and> be16 f 8 \<le> SIG_BC_HR_ADDR \<and> SIG_BC_HR_ADDR < be16 f 8 + be16 f 10)"

definition value_index :: "byte list \<Rightarrow> nat" where
  "value_index f = 13 + (SIG_BC_HR_ADDR - be16 f 8) * 2"

definition well_formed_frame :: "byte list \<Rightarrow> bool" where
  "well_formed_frame f =
     (complete_frame f \<and> 8 \<le> length f \<and>
      (f ! 7 = 16 \<longrightarrow> 12 \<le> length f) \<and>
      (covers_protected f \<longrightarrow> value_index f + 1 < length f))"

text \<open>
  The frame the specification expects the gateway to forward for a well-formed frame.
\<close>

definition relay :: "byte list \<Rightarrow> byte list" where
  "relay f = (if covers_protected f then f[value_index f := 0x00, value_index f + 1 := 0x01] else f)"

text \<open>
  A concrete remote side (every connection attempt succeeds, every request returns the values
  1, 0, 0, 0, the clock advances a millisecond per reading), a connected client with an empty
  trace, and the simulator state right after a reset at time 10, whose blackout window ends at
  time 13.
\<close>

definition example_env :: env where
  "example_env = \<lparr>connect_ok = (\<lambda>_. True), reply_to = (\<lambda>_. Values [1, 0, 0, 0]),
                 clock = (\<lambda>n. 10 + real n / 1000)\<rparr>"

definition example_io :: io where
  "example_io = \<lparr>connected = True, trace = [], calls = 0, time_reads = 0\<rparr>"

definition example_sim :: sim where
  "example_sim = \<lparr>mode_auto = True, scada_mode_manual = False, need_resync = False,
           prev_comms_enabled = True, auto_write_hold_until = 0,
           sig_ab = 0, sig_bc = 0, sig_sb = 0, turnout_to_main = True, estop = 0,
           occ_A = 1, occ_B = 0, occ_C = 0, occ_S = 1,
           crash_active = False, crash_start = 0, crash_sent_to_plc = False,
           t1_claims_b_until = 0, auto_st = AUTO_INIT_WAIT, wait_until = 13,
           T1 = \<lparr>loc = A, moving = False, dest = None\<rparr>,
           T2 = \<lparr>loc = S, moving = False, dest = None\<rparr>, last_plc = 0\<rparr>"

section \<open>Properties of the interlocking scan\<close>

lemmas address_map =
  CO_TURNOUT_MAIN_def CO_ESTOP_def HR_SIG_AB_def HR_SIG_BC_def HR_SIG_SB_def
  HR_IN_OCC_A_def HR_IN_OCC_B_def HR_IN_OCC_C_def HR_IN_CRASH_def HR_MODE_def

lemma and_then_Inr [simp]: "and_then (Inr x) f = f x"
  by (simp add: and_then_def)

lemma and_then_Inl [simp]: "and_then (Inl e) f = Inl e"
  by (simp add: and_then_def)

lemma getValues_one: "getValues blk addr (Suc 0) = (if addr < length blk then Inr [blk ! addr] else Inl OutOfRange)"
  by (auto simp: getValues_def take_Suc_conv_app_nth hd_drop_conv_nth take_Suc)

lemma setValues_one:
  "setValues blk addr [v] = (if addr < length blk then Inr (blk[addr := v]) else Inl OutOfRange)"
  by (auto simp: setValues_def upd_conv_take_nth_drop)

lemma hr_get_eq: "hr_get s addr = (if addr < length (hr s) then Inr (hr s ! addr) else Inl OutOfRange)"
  by (simp add: hr_get_def getValues_one first_item_def)

lemma co_get_eq: "co_get s addr = (if addr < length (co s) then Inr (co s ! addr) else Inl OutOfRange)"
  by (simp add: co_get_def getValues_one first_item_def)

lemma hr_set_eq:
  "hr_set s addr v = (if addr < length (hr s) then Inr (s\<lparr>hr := (hr s)[addr := v]\<rparr>) else Inl OutOfRange)"
  by (simp add: hr_set_def setValues_one)

lemma co_set_eq:
  "co_set s addr v = (if addr < length (co s) then Inr (s\<lparr>co := (co s)[addr := b v]\<rparr>) else Inl OutOfRange)"
  by (simp add: co_set_def setValues_one)

lemma read_inputs_eq:
  "read_inputs s =
     (if HR_IN_CRASH < length (hr s)
      then Inr \<lparr>occA = b (hr s ! HR_IN_OCC_A), occB = b (hr s ! HR_IN_OCC_B),
                occC = b (hr s ! HR_IN_OCC_C), crash = b (hr s ! HR_IN_CRASH)\<rparr>
      else Inl OutOfRange)"
  by (simp add: read_inputs_def hr_get_eq address_map)

lemma scan_no_capacity: "\<not> scan_capacity s \<Longrightarrow> plc_logic_scan s = Inl OutOfRange"
  by (auto simp: scan_capacity_def plc_logic_scan_def read_inputs_eq hr_get_eq co_set_eq address_map Let_def)

lemma scan_crash_eq:
  "scan_capacity s \<Longrightarrow> hr s ! HR_IN_CRASH \<noteq> 0 \<Longrightarrow>
   plc_logic_scan s =
     Inr (s\<lparr>co := (co s)[CO_ESTOP := 1],
            hr := (hr s)[HR_SIG_AB := 0, HR_SIG_BC := 0, HR_SIG_SB := 0]\<rparr>)"
  by (simp add: scan_capacity_def plc_logic_scan_def read_inputs_eq hr_get_eq hr_set_eq co_set_eq
      b_def address_map Let_def del: length_greater_0_conv)

lemma scan_supervised_eq:
  "scan_capacity s \<Longrightarrow> hr s ! HR_IN_CRASH = 0 \<Longrightarrow> hr s ! HR_MODE \<noteq> 0 \<Longrightarrow>
   plc_logic_scan s =
     Inr (s\<lparr>co := (if hr s ! HR_IN_OCC_B \<noteq> 0 then (co s)[CO_ESTOP := 0, CO_TURNOUT_MAIN := 1]
                   else (co s)[CO_ESTOP := 0]),
            hr := (hr s)[HR_SIG_AB := clamp01 (hr s ! HR_SIG_AB),
                         HR_SIG_BC := clamp01 (hr s ! HR_SIG_BC),
                         HR_SIG_SB := clamp01 (hr s ! HR_SIG_SB)]\<rparr>)"
  by (simp add: scan_capacity_def plc_logic_scan_def read_inputs_eq hr_get_eq hr_set_eq co_set_eq co_get_eq
      b_def clamp01_def address_map Let_def del: length_greater_0_conv)

lemma scan_autonomous_eq:
  "scan_capacity s \<Longrightarrow> hr s ! HR_IN_CRASH = 0 \<Longrightarrow> hr s ! HR_MODE = 0 \<Longrightarrow>
   plc_logic_scan s =
     Inr (s\<lparr>co := (if hr s ! HR_IN_OCC_B \<noteq> 0 then (co s)[CO_ESTOP := 0, CO_TURNOUT_MAIN := 1]
                   else (co s)[CO_ESTOP := 0]),
            hr := (hr s)[HR_SIG_AB := (if hr s ! HR_IN_OCC_B = 0 then 1 else 0),
                         HR_SIG_BC := (if hr s ! HR_IN_OCC_C = 0 then 1 else 0),
                         HR_SIG_SB := (if co s ! CO_TURNOUT_MAIN \<noteq> 0 \<and> hr s ! HR_IN_OCC_B = 0
                                       then 1 else 0)]\<rparr>)"
  by (simp add: scan_capacity_def plc_logic_scan_def read_inputs_eq hr_get_eq hr_set_eq co_set_eq co_get_eq
      b_def clamp01_def address_map Let_def del: length_greater_0_conv)

lemma scan_capacity_main [simp]: "scan_capacity main_store"
  by (simp add: scan_capacity_def main_store_def address_map)

lemma capacity_bounds:
  assumes "scan_capacity s"
  shows "0 < length (hr s)" "1 < length (hr s)" "2 < length (hr s)" "50 < length (hr s)"
    "100 < length (hr s)" "101 < length (hr s)" "102 < length (hr s)" "103 < length (hr s)"
    "0 < length (co s)" "1 < length (co s)"
  using assms by (simp_all add: scan_capacity_def address_map del: length_greater_0_conv)

text \<open>
  Claim C1. When the crash register (holding register 103) is nonzero, one scan sets the
  emergency-stop coil (coil 1) to 1 and the three signal registers (holding registers 0, 1, 2)
  to 0, and does nothing else: the store after the scan is the store before it with exactly
  these four cells overwritten.
\<close>

theorem crash_forces_stop:
  assumes "scan_capacity s" and "hr s ! HR_IN_CRASH \<noteq> 0"
  shows "\<exists>s'. plc_logic_scan s = Inr s' \<and>
           co s' ! CO_ESTOP = 1 \<and>
           hr s' ! HR_SIG_AB = 0 \<and> hr s' ! HR_SIG_BC = 0 \<and> hr s' ! HR_SIG_SB = 0 \<and>
           s' = s\<lparr>co := (co s)[CO_ESTOP := 1],
                   hr := (hr s)[HR_SIG_AB := 0, HR_SIG_BC := 0, HR_SIG_SB := 0]\<rparr>"
  using assms capacity_bounds [OF assms(1)]
  by (simp add: scan_crash_eq address_map del: length_greater_0_conv)

theorem crash_forces_stop_witness:
  "scan_capacity (main_store\<lparr>hr := (hr main_store)[HR_IN_CRASH := 1, HR_SIG_BC := 7]\<rparr>) \<and>
   hr (main_store\<lparr>hr := (hr main_store)[HR_IN_CRASH := 1, HR_SIG_BC := 7]\<rparr>) ! HR_IN_CRASH \<noteq> 0 \<and>
   (\<exists>s'. plc_logic_scan (main_store\<lparr>hr := (hr main_store)[HR_IN_CRASH := 1, HR_SIG_BC := 7]\<rparr>)
           = Inr s' \<and>
         co s' ! CO_ESTOP = 1 \<and>
         hr s' ! HR_SIG_AB = 0 \<and> hr s' ! HR_SIG_BC = 0 \<and> hr s' ! HR_SIG_SB = 0)"
proof -
  let ?s = "main_store\<lparr>hr := (hr main_store)[HR_IN_CRASH := 1, HR_SIG_BC := 7]\<rparr>"
  have c: "scan_capacity ?s"
    by (simp add: scan_capacity_def main_store_def address_map)
  have h: "hr ?s ! HR_IN_CRASH \<noteq> 0"
    by (simp add: main_store_def address_map)
  from crash_forces_stop [OF c h] c h show ?thesis
    by blast
qed

text \<open>
  Claim C2. With the crash register at 0 and the mode register (holding register 50) at 0, after
  one scan signal AB is 1 exactly when occupancy B is 0, signal BC is 1 exactly when occupancy C
  is 0, and signal SB is 1 exactly when occupancy B is 0 and the turnout coil, as the scan
  leaves it, is set to main. Each signal is 0 or 1, and the scan leaves the occupancy registers
  as they were.
\<close>

theorem autonomous_signals:
  assumes "scan_capacity s" and "hr s ! HR_IN_CRASH = 0" and "hr s ! HR_MODE = 0"
  shows "\<exists>s'. plc_logic_scan s = Inr s' \<and>
           (hr s' ! HR_SIG_AB = 1 \<longleftrightarrow> hr s' ! HR_IN_OCC_B = 0) \<and>
           (hr s' ! HR_SIG_BC = 1 \<longleftrightarrow> hr s' ! HR_IN_OCC_C = 0) \<and>
           (hr s' ! HR_SIG_SB = 1 \<longleftrightarrow> hr s' ! HR_IN_OCC_B = 0 \<and> co s' ! CO_TURNOUT_MAIN \<noteq> 0) \<and>
           hr s' ! HR_SIG_AB \<in> {0, 1} \<and> hr s' ! HR_SIG_BC \<in> {0, 1} \<and> hr s' ! HR_SIG_SB \<in> {0, 1} \<and>
           hr s' ! HR_IN_OCC_B = hr s ! HR_IN_OCC_B \<and> hr s' ! HR_IN_OCC_C = hr s ! HR_IN_OCC_C"
  using assms capacity_bounds [OF assms(1)]
  by (simp add: scan_autonomous_eq address_map del: length_greater_0_conv)

theorem autonomous_signals_witness:
  "scan_capacity (main_store\<lparr>hr := (hr main_store)[HR_IN_OCC_B := 1]\<rparr>) \<and>
   hr (main_store\<lparr>hr := (hr main_store)[HR_IN_OCC_B := 1]\<rparr>) ! HR_IN_CRASH = 0 \<and>
   hr (main_store\<lparr>hr := (hr main_store)[HR_IN_OCC_B := 1]\<rparr>) ! HR_MODE = 0 \<and>
   (\<exists>s'. plc_logic_scan (main_store\<lparr>hr := (hr main_store)[HR_IN_OCC_B := 1]\<rparr>) = Inr s' \<and>
         hr s' ! HR_SIG_AB = 0 \<and> hr s' ! HR_SIG_BC = 1 \<and> hr s' ! HR_SIG_SB = 0)"
proof -
  let ?s = "main_store\<lparr>hr := (hr main_store)[HR_IN_OCC_B := 1]\<rparr>"
  have c: "scan_capacity ?s"
    by (simp add: scan_capacity_def main_store_def address_map)
  have h: "hr ?s ! HR_IN_CRASH = 0" "hr ?s ! HR_MODE = 0"
    by (simp_all add: main_store_def address_map)
  have occ: "hr ?s ! HR_IN_OCC_B = 1" "hr ?s ! HR_IN_OCC_C = 0"
    by (simp_all add: main_store_def address_map)
  from autonomous_signals [OF c h] obtain s' where
    "plc_logic_scan ?s = Inr s'"
    "hr s' ! HR_SIG_AB = 1 \<longleftrightarrow> hr s' ! HR_IN_OCC_B = 0"
    "hr s' ! HR_SIG_BC = 1 \<longleftrightarrow> hr s' ! HR_IN_OCC_C = 0"
    "hr s' ! HR_SIG_SB = 1 \<longleftrightarrow> hr s' ! HR_IN_OCC_B = 0 \<and> co s' ! CO_TURNOUT_MAIN \<noteq> 0"
    "hr s' ! HR_SIG_AB \<in> {0, 1}" "hr s' ! HR_SIG_BC \<in> {0, 1}" "hr s' ! HR_SIG_SB \<in> {0, 1}"
    "hr s' ! HR_IN_OCC_B = hr ?s ! HR_IN_OCC_B" "hr s' ! HR_IN_OCC_C = hr ?s ! HR_IN_OCC_C"
    by blast
  with occ have "plc_logic_scan ?s = Inr s' \<and>
      hr s' ! HR_SIG_AB = 0 \<and> hr s' ! HR_SIG_BC = 1 \<and> hr s' ! HR_SIG_SB = 0"
    by auto
  with c h show ?thesis
    by blast
qed

text \<open>
  Claim C3, as stated, fails: when the crash register is nonzero the scan returns before it
  looks at the turnout. In the store of \<^verbatim>\<open>main\<close> with occupancy B and crash set to 1 and the
  turnout coil commanded to 0, the turnout coil is still 0 after the scan.
\<close>

theorem crash_skips_turnout_override:
  "hr (main_store\<lparr>co := (co main_store)[CO_TURNOUT_MAIN := 0],
                  hr := (hr main_store)[HR_IN_OCC_B := 1, HR_IN_CRASH := 1]\<rparr>) ! HR_IN_OCC_B = 1 \<and>
   map_sum id (\<lambda>s'. co s' ! CO_TURNOUT_MAIN)
     (plc_logic_scan (main_store\<lparr>co := (co main_store)[CO_TURNOUT_MAIN := 0],
                  hr := (hr main_store)[HR_IN_OCC_B := 1, HR_IN_CRASH := 1]\<rparr>)) = Inr 0"
  by (simp add: scan_crash_eq scan_capacity_def main_store_def address_map)

text \<open>
  Claim C3, amended. When the crash register is 0 and occupancy B (holding register 101) is
  nonzero, one scan sets the turnout coil (coil 0) to 1, whatever the coil held before and
  whatever the mode.
\<close>

theorem occupied_junction_forces_main:
  assumes "scan_capacity s" and "hr s ! HR_IN_CRASH = 0" and "hr s ! HR_IN_OCC_B \<noteq> 0"
  shows "\<exists>s'. plc_logic_scan s = Inr s' \<and> co s' ! CO_TURNOUT_MAIN = 1"
proof (cases "hr s ! HR_MODE = 0")
  case True
  with assms capacity_bounds [OF assms(1)] show ?thesis
    by (simp add: scan_autonomous_eq address_map del: length_greater_0_conv)
next
  case False
  with assms capacity_bounds [OF assms(1)] show ?thesis
    by (simp add: scan_supervised_eq address_map del: length_greater_0_conv)
qed

theorem occupied_junction_forces_main_witness:
  "scan_capacity (main_store\<lparr>co := (co main_store)[CO_TURNOUT_MAIN := 0],
                             hr := (hr main_store)[HR_IN_OCC_B := 1]\<rparr>) \<and>
   co (main_store\<lparr>co := (co main_store)[CO_TURNOUT_MAIN := 0],
                  hr := (hr main_store)[HR_IN_OCC_B := 1]\<rparr>) ! CO_TURNOUT_MAIN = 0 \<and>
   (\<exists>s'. plc_logic_scan (main_store\<lparr>co := (co main_store)[CO_TURNOUT_MAIN := 0],
                                      hr := (hr main_store)[HR_IN_OCC_B := 1]\<rparr>) = Inr s' \<and>
         co s' ! CO_TURNOUT_MAIN = 1)"
proof -
  let ?s = "main_store\<lparr>co := (co main_store)[CO_TURNOUT_MAIN := 0],
                       hr := (hr main_store)[HR_IN_OCC_B := 1]\<rparr>"
  have c: "scan_capacity ?s"
    by (simp add: scan_capacity_def main_store_def address_map)
  have h: "hr ?s ! HR_IN_CRASH = 0" "hr ?s ! HR_IN_OCC_B \<noteq> 0"
    by (simp_all add: main_store_def address_map)
  have t: "co ?s ! CO_TURNOUT_MAIN = 0"
    by (simp add: main_store_def address_map)
  from occupied_junction_forces_main [OF c h] c t show ?thesis
    by blast
qed

lemma clamp01_idem [simp]: "clamp01 (clamp01 v) = clamp01 v"
  by (simp add: clamp01_def)

lemma clamp01_fix: "v \<in> {0, 1} \<Longrightarrow> clamp01 v = v"
  by (auto simp: clamp01_def)

lemma supervised_scans:
  assumes "scan_capacity s" and "hr s ! HR_IN_CRASH = 0" and "hr s ! HR_MODE \<noteq> 0"
  shows "\<exists>s'. scan_loop (Suc n) s = Inr s' \<and> scan_capacity s' \<and>
           hr s' ! HR_SIG_AB = clamp01 (hr s ! HR_SIG_AB) \<and>
           hr s' ! HR_SIG_BC = clamp01 (hr s ! HR_SIG_BC) \<and>
           hr s' ! HR_SIG_SB = clamp01 (hr s ! HR_SIG_SB)"
  using assms
proof (induction n arbitrary: s)
  case 0
  from 0 capacity_bounds [OF 0(1)] show ?case
    by (simp add: scan_supervised_eq address_map scan_capacity_def del: length_greater_0_conv)
next
  case (Suc n)
  let ?t = "s\<lparr>co := (if hr s ! HR_IN_OCC_B \<noteq> 0 then (co s)[CO_ESTOP := 0, CO_TURNOUT_MAIN := 1]
                   else (co s)[CO_ESTOP := 0]),
            hr := (hr s)[HR_SIG_AB := clamp01 (hr s ! HR_SIG_AB),
                         HR_SIG_BC := clamp01 (hr s ! HR_SIG_BC),
                         HR_SIG_SB := clamp01 (hr s ! HR_SIG_SB)]\<rparr>"
  have step: "plc_logic_scan s = Inr ?t"
    using Suc.prems by (rule scan_supervised_eq)
  have t: "scan_capacity ?t" "hr ?t ! HR_IN_CRASH = 0" "hr ?t ! HR_MODE \<noteq> 0"
    using Suc.prems by (simp_all add: scan_capacity_def address_map)
  have sigs: "hr ?t ! HR_SIG_AB = clamp01 (hr s ! HR_SIG_AB)"
    "hr ?t ! HR_SIG_BC = clamp01 (hr s ! HR_SIG_BC)"
    "hr ?t ! HR_SIG_SB = clamp01 (hr s ! HR_SIG_SB)"
    using capacity_bounds [OF Suc.prems(1)]
    by (simp_all add: address_map del: length_greater_0_conv)
  from Suc.IH [OF t] obtain s' where
    "scan_loop (Suc n) ?t = Inr s'" "scan_capacity s'"
    "hr s' ! HR_SIG_AB = clamp01 (hr ?t ! HR_SIG_AB)"
    "hr s' ! HR_SIG_BC = clamp01 (hr ?t ! HR_SIG_BC)"
    "hr s' ! HR_SIG_SB = clamp01 (hr ?t ! HR_SIG_SB)"
    by blast
  then show ?case
    using step sigs by (simp del: scan_loop.simps add: scan_loop.simps(2) [of "Suc n"])
qed

text \<open>
  Claim C5. With the crash register at 0 and the mode register nonzero (externally supervised;
  the scan treats every nonzero mode value as 1), any number \<open>n\<close> of consecutive scans
  succeeds; once at least one scan has run, each signal register holds the value it held at the
  start clamped to 0 or 1, whatever the occupancy registers say; and when the three signal
  registers hold values in \<open>{0, 1}\<close> at the start they hold the same values after the
  \<open>n\<close> scans.
\<close>

theorem supervised_signals_untouched:
  assumes "scan_capacity s" and "hr s ! HR_IN_CRASH = 0" and "hr s ! HR_MODE \<noteq> 0"
  shows "\<exists>s'. scan_loop n s = Inr s' \<and>
           (0 < n \<longrightarrow> hr s' ! HR_SIG_AB = clamp01 (hr s ! HR_SIG_AB) \<and>
                    hr s' ! HR_SIG_BC = clamp01 (hr s ! HR_SIG_BC) \<and>
                    hr s' ! HR_SIG_SB = clamp01 (hr s ! HR_SIG_SB)) \<and>
           (hr s ! HR_SIG_AB \<in> {0, 1} \<and> hr s ! HR_SIG_BC \<in> {0, 1} \<and> hr s ! HR_SIG_SB \<in> {0, 1} \<longrightarrow>
              hr s' ! HR_SIG_AB = hr s ! HR_SIG_AB \<and>
              hr s' ! HR_SIG_BC = hr s ! HR_SIG_BC \<and>
              hr s' ! HR_SIG_SB = hr s ! HR_SIG_SB)"
proof (cases n)
  case 0
  then show ?thesis by simp
next
  case (Suc m)
  from supervised_scans [OF assms, of m] obtain s' where
    "scan_loop (Suc m) s = Inr s'"
    "hr s' ! HR_SIG_AB = clamp01 (hr s ! HR_SIG_AB)"
    "hr s' ! HR_SIG_BC = clamp01 (hr s ! HR_SIG_BC)"
    "hr s' ! HR_SIG_SB = clamp01 (hr s ! HR_SIG_SB)"
    by blast
  with Suc show ?thesis
    by (auto simp del: scan_loop.simps simp: clamp01_fix)
qed

theorem supervised_signals_untouched_witness:
  "scan_capacity (main_store\<lparr>hr := (hr main_store)[HR_MODE := 1, HR_SIG_BC := 1, HR_IN_OCC_C := 1]\<rparr>) \<and>
   (\<exists>s'. scan_loop 3
           (main_store\<lparr>hr := (hr main_store)[HR_MODE := 1, HR_SIG_BC := 1, HR_IN_OCC_C := 1]\<rparr>)
         = Inr s' \<and>
         hr s' ! HR_SIG_AB = 0 \<and> hr s' ! HR_SIG_BC = 1 \<and> hr s' ! HR_SIG_SB = 0)"
proof -
  let ?s = "main_store\<lparr>hr := (hr main_store)[HR_MODE := 1, HR_SIG_BC := 1, HR_IN_OCC_C := 1]\<rparr>"
  have c: "scan_capacity ?s"
    by (simp add: scan_capacity_def main_store_def address_map)
  have h: "hr ?s ! HR_IN_CRASH = 0" "hr ?s ! HR_MODE \<noteq> 0"
    by (simp_all add: main_store_def address_map)
  have sigs: "hr ?s ! HR_SIG_AB = 0" "hr ?s ! HR_SIG_BC = 1" "hr ?s ! HR_SIG_SB = 0"
    by (simp_all add: main_store_def address_map)
  from supervised_signals_untouched [OF c h, of 3] obtain s' where
    run: "scan_loop 3 ?s = Inr s'"
    and keep: "hr ?s ! HR_SIG_AB \<in> {0, 1} \<and> hr ?s ! HR_SIG_BC \<in> {0, 1} \<and> hr ?s ! HR_SIG_SB \<in> {0, 1} \<longrightarrow>
              hr s' ! HR_SIG_AB = hr ?s ! HR_SIG_AB \<and>
              hr s' ! HR_SIG_BC = hr ?s ! HR_SIG_BC \<and>
              hr s' ! HR_SIG_SB = hr ?s ! HR_SIG_SB"
    by blast
  from keep sigs have "hr s' ! HR_SIG_AB = 0 \<and> hr s' ! HR_SIG_BC = 1 \<and> hr s' ! HR_SIG_SB = 0"
    by simp
  with run c show ?thesis
    by blast
qed

text \<open>
  Claim C10. The scan does not depend on sensed occupancy A (holding register 100): running it
  on a store whose register 100 has been replaced by any value \<open>v\<close> gives the result of
  running it on the original store with register 100 replaced by \<open>v\<close> afterwards. So the two
  runs fail alike or write the same values to the same coils and registers, and neither writes
  register 100.
\<close>

theorem scan_ignores_occupancy_A:
  "plc_logic_scan (s\<lparr>hr := (hr s)[HR_IN_OCC_A := v]\<rparr>) =
     map_sum id (\<lambda>s'. s'\<lparr>hr := (hr s')[HR_IN_OCC_A := v]\<rparr>) (plc_logic_scan s)"
proof (cases "scan_capacity s")
  case False
  then have "\<not> scan_capacity (s\<lparr>hr := (hr s)[HR_IN_OCC_A := v]\<rparr>)"
    by (simp add: scan_capacity_def)
  with False show ?thesis
    by (simp add: scan_no_capacity)
next
  case True
  let ?t = "s\<lparr>hr := (hr s)[HR_IN_OCC_A := v]\<rparr>"
  have t: "scan_capacity ?t"
    using True by (simp add: scan_capacity_def)
  consider (crash) "hr s ! HR_IN_CRASH \<noteq> 0"
    | (sup) "hr s ! HR_IN_CRASH = 0" "hr s ! HR_MODE \<noteq> 0"
    | (auto) "hr s ! HR_IN_CRASH = 0" "hr s ! HR_MODE = 0"
    by blast
  then show ?thesis
  proof cases
    case crash
    then have "hr ?t ! HR_IN_CRASH \<noteq> 0"
      by (simp add: address_map)
    with crash True t show ?thesis
      by (simp add: scan_crash_eq) (simp add: address_map list_update_swap)
  next
    case sup
    then have "hr ?t ! HR_IN_CRASH = 0" "hr ?t ! HR_MODE \<noteq> 0"
      by (simp_all add: address_map)
    with sup True t show ?thesis
      by (simp add: scan_supervised_eq) (simp add: address_map list_update_swap)
  next
    case auto
    then have "hr ?t ! HR_IN_CRASH = 0" "hr ?t ! HR_MODE = 0"
      by (simp_all add: address_map)
    with auto True t show ?thesis
      by (simp add: scan_autonomous_eq) (simp add: address_map list_update_swap)
  qed
qed

section \<open>Properties of the gateway\<close>

declare process_loop.simps [simp del]

lemma be16_append_mid:
  "k + 1 < length f \<Longrightarrow> be16 (pre @ f @ rest) (length pre + k) = be16 f k"
  by (simp add: be16_def nth_append)

lemma be16_drop: "n + k + 1 < length f \<Longrightarrow> be16 (drop n f) k = be16 f (n + k)"
  by (simp add: be16_def)

lemma process_loop_frame:
  assumes "complete_frame f"
  shows "process_loop (pre @ f @ rest) (length pre) outp latest =
           (case process_frame f of
              Inl e \<Rightarrow> (Inl e, be16 f 0)
            | Inr f' \<Rightarrow> process_loop (pre @ f @ rest) (length pre + length f) (outp @ f') (be16 f 0))"
proof -
  from assms have len: "7 \<le> length f" "length f = 6 + be16 f 4"
    by (simp_all add: complete_frame_def)
  have hdr: "be16 (pre @ f @ rest) (length pre) = be16 f 0"
    "be16 (pre @ f @ rest) (length pre + 4) = be16 f 4"
    using len(1) be16_append_mid [of 0 f pre rest] be16_append_mid [of 4 f pre rest] by simp_all
  have frame: "take (6 + be16 f 4) (drop (length pre) (pre @ f @ rest)) = f"
    using len(2) by simp
  show ?thesis
    using len(1)
    by (subst process_loop.simps) (simp add: unpack_HHHB_def hdr frame Let_def len(2) [symmetric] cong: sum.case_cong)
qed

lemma update_tail:
  assumes "n \<le> length f"
  shows "take n f @ (drop n f)[i := u, j := v] = f[n + i := u, n + j := v]"
proof -
  have "(take n f @ drop n f)[n + i := u, n + j := v] = take n f @ (drop n f)[i := u, j := v]"
    using assms by (simp add: list_update_append del: append_take_drop_id)
  then show ?thesis by simp
qed

lemma process_loop_end:
  "process_loop view (length view) outp latest = (Inr outp, latest)"
  by (subst process_loop.simps) simp

lemma process_frame_forced:
  assumes "well_formed_frame f" and "covers_protected f"
  shows "process_frame f = Inr (f[value_index f := 0, value_index f + 1 := 1])"
proof -
  from assms have len: "12 \<le> length f" "value_index f + 1 < length f"
    and fc: "f ! 7 = 16"
    and rng: "be16 f 8 \<le> SIG_BC_HR_ADDR" "SIG_BC_HR_ADDR < be16 f 8 + be16 f 10"
    by (simp_all add: well_formed_frame_def covers_protected_def)
  have pdu: "drop 7 f = 16 # drop (Suc 7) f"
    using len(1) Cons_nth_drop_Suc [of 7 f] by (simp add: fc)
  have hh: "unpack_HH (drop 7 f) 1 = Inr (be16 f 8, be16 f 10)"
    using len(1) by (simp add: unpack_HH_def be16_drop)
  have "process_frame f =
          Inr (take 7 f @ (drop 7 f)[6 + (SIG_BC_HR_ADDR - be16 f 8) * 2 := 0,
                                     6 + (SIG_BC_HR_ADDR - be16 f 8) * 2 + 1 := 1])"
    unfolding process_frame_def Let_def hh [unfolded pdu] pdu
    using len(2) rng by (simp add: set_item_def value_index_def pdu [symmetric])
  also have "take 7 f @ (drop 7 f)[6 + (SIG_BC_HR_ADDR - be16 f 8) * 2 := 0,
                                     6 + (SIG_BC_HR_ADDR - be16 f 8) * 2 + 1 := 1] =
             f[value_index f := 0, value_index f + 1 := 1]"
    using len(1) update_tail [of 7 f] by (simp add: value_index_def)
  finally show ?thesis .
qed

lemma process_frame_other:
  assumes "well_formed_frame f" and "\<not> covers_protected f"
  shows "process_frame f = Inr f"
proof -
  from assms have len: "8 \<le> length f" and wm: "f ! 7 = 16 \<longrightarrow> 12 \<le> length f"
    by (simp_all add: well_formed_frame_def)
  have pdu: "drop 7 f = f ! 7 # drop (Suc 7) f"
    using len Cons_nth_drop_Suc [of 7 f] by simp
  show ?thesis
  proof (cases "f ! 7 = 16")
    case False
    then show ?thesis
      unfolding process_frame_def Let_def pdu by simp
  next
    case True
    with wm have l12: "12 \<le> length f" by simp
    have hh: "unpack_HH (drop 7 f) 1 = Inr (be16 f 8, be16 f 10)"
      using l12 by (simp add: unpack_HH_def be16_drop)
    from True assms(2) have "\<not> (be16 f 8 \<le> SIG_BC_HR_ADDR \<and> SIG_BC_HR_ADDR < be16 f 8 + be16 f 10)"
      by (simp add: covers_protected_def)
    then have neg: "(be16 f 8 \<le> SIG_BC_HR_ADDR \<and> SIG_BC_HR_ADDR < be16 f 8 + be16 f 10) = False"
      by simp
    show ?thesis
      unfolding process_frame_def Let_def hh [unfolded pdu] pdu using True by (simp add: neg)
  qed
qed

lemma process_frame_relay: "well_formed_frame f \<Longrightarrow> process_frame f = Inr (relay f)"
  by (simp add: relay_def process_frame_forced process_frame_other)

lemma process_loop_frames:
  assumes "\<forall>f \<in> set fs. well_formed_frame f"
  shows "process_loop (pre @ concat fs @ rest) (length pre) outp latest =
           process_loop (pre @ concat fs @ rest) (length pre + length (concat fs))
             (outp @ concat (map relay fs)) (foldl (\<lambda>t f. be16 f 0) latest fs)"
  using assms
proof (induction fs arbitrary: pre outp latest)
  case Nil
  then show ?case by simp
next
  case (Cons f fs)
  then have wf: "well_formed_frame f" and rest: "\<forall>g \<in> set fs. well_formed_frame g"
    by simp_all
  from wf have cf: "complete_frame f"
    by (simp add: well_formed_frame_def)
  have "process_loop (pre @ concat (f # fs) @ rest) (length pre) outp latest =
        process_loop (pre @ f @ (concat fs @ rest)) (length pre) outp latest"
    by simp
  also have "\<dots> = process_loop (pre @ f @ (concat fs @ rest)) (length pre + length f)
                      (outp @ relay f) (be16 f 0)"
    by (simp add: process_loop_frame [OF cf] process_frame_relay [OF wf])
  also have "\<dots> = process_loop ((pre @ f) @ concat fs @ rest) (length (pre @ f))
                      (outp @ relay f) (be16 f 0)"
    by simp
  also have "\<dots> = process_loop ((pre @ f) @ concat fs @ rest)
                      (length (pre @ f) + length (concat fs))
                      ((outp @ relay f) @ concat (map relay fs))
                      (foldl (\<lambda>t f. be16 f 0) (be16 f 0) fs)"
    by (rule Cons.IH [OF rest])
  finally show ?case
    by (simp add: add.assoc)
qed

lemma process_frames:
  assumes "\<forall>f \<in> set fs. well_formed_frame f"
  shows "process_modbus_payload latest (concat fs) =
           (Inr (concat (map relay fs)), foldl (\<lambda>t f. be16 f 0) latest fs)"
  using process_loop_frames [OF assms, of "[]" "[]" "[]" latest]
  by (simp add: process_modbus_payload_def process_loop_end)

lemma process_loop_short:
  "length view < offset + 7 \<Longrightarrow> process_loop view offset outp latest = (Inr outp, latest)"
  by (subst process_loop.simps) simp

lemma process_frames_short_tail:
  assumes "\<forall>f \<in> set fs. well_formed_frame f" and "length tail < 7"
  shows "process_modbus_payload latest (concat fs @ tail) =
           (Inr (concat (map relay fs)), foldl (\<lambda>t f. be16 f 0) latest fs)"
  using process_loop_frames [OF assms(1), of "[]" tail "[]" latest] assms(2)
  by (simp add: process_modbus_payload_def process_loop_short)

lemma singleton_list: "length gs = Suc 0 \<Longrightarrow> gs = [gs ! 0]"
  by (cases gs) simp_all

lemma pair_list:
  assumes "length gs = Suc (Suc 0)"
  shows "gs = [gs ! 0, gs ! 1]"
proof -
  from assms obtain x y where "gs = [x, y]"
    by (metis length_0_conv length_Suc_conv)
  then show ?thesis by simp
qed

text \<open>
  Claim C6. For a buffer made of well-formed frames \<open>fs\<close>, the gateway returns the
  concatenation of as many frames \<open>gs\<close>, and for every frame of the buffer that is a
  write-multiple-registers request covering the protected register (holding register 1) the
  frame returned in its place is the input frame with the two bytes of that register's value
  set to \<open>0x00, 0x01\<close>: the length of the frame, its header with the transaction identifier
  and the length field, and every other payload byte are those of the input.
\<close>

theorem rewrite_forces_protected_register:
  assumes "\<forall>f \<in> set fs. well_formed_frame f"
  shows "\<exists>gs. fst (process_modbus_payload latest (concat fs)) = Inr (concat gs) \<and>
           length gs = length fs \<and>
           (\<forall>i < length fs. covers_protected (fs ! i) \<longrightarrow>
              gs ! i = (fs ! i)[value_index (fs ! i) := 0x00, value_index (fs ! i) + 1 := 0x01])"
proof (intro exI conjI allI impI)
  show "fst (process_modbus_payload latest (concat fs)) = Inr (concat (map relay fs))"
    by (simp add: process_frames [OF assms])
  show "length (map relay fs) = length fs"
    by simp
next
  fix i
  assume "i < length fs" and "covers_protected (fs ! i)"
  then show "map relay fs ! i = (fs ! i)[value_index (fs ! i) := 0x00, value_index (fs ! i) + 1 := 0x01]"
    by (simp add: relay_def)
qed

theorem rewrite_forces_protected_register_witness:
  "well_formed_frame [0,5, 0,0, 0,13, 1, 16, 0,0, 0,3, 6, 0,1, 0,0, 0,1] \<and>
   covers_protected [0,5, 0,0, 0,13, 1, 16, 0,0, 0,3, 6, 0,1, 0,0, 0,1] \<and>
   fst (process_modbus_payload 0 [0,5, 0,0, 0,13, 1, 16, 0,0, 0,3, 6, 0,1, 0,0, 0,1]) =
     Inr [0,5, 0,0, 0,13, 1, 16, 0,0, 0,3, 6, 0,1, 0,1, 0,1]"
proof -
  let ?f = "[0,5, 0,0, 0,13, 1, 16, 0,0, 0,3, 6, 0,1, 0,0, 0,1] :: byte list"
  have cov: "covers_protected ?f"
    by (simp add: covers_protected_def be16_def SIG_BC_HR_ADDR_def)
  have vi: "value_index ?f = 15"
    by (simp add: value_index_def be16_def SIG_BC_HR_ADDR_def)
  have wf: "well_formed_frame ?f"
    by (simp add: well_formed_frame_def complete_frame_def vi be16_def)
  then have "\<forall>f \<in> set [?f]. well_formed_frame f"
    by simp
  from rewrite_forces_protected_register [OF this, of 0]
  obtain gs where out: "fst (process_modbus_payload 0 (concat [?f])) = Inr (concat gs)"
    and len: "length gs = length [?f]"
    and upd: "\<forall>i < length [?f]. covers_protected ([?f] ! i) \<longrightarrow>
                gs ! i = ([?f] ! i)[value_index ([?f] ! i) := 0x00, value_index ([?f] ! i) + 1 := 0x01]"
    by blast
  from len have gs: "gs = [gs ! 0]"
    using singleton_list [of gs] by simp
  from upd cov have "gs ! 0 = ?f[value_index ?f := 0x00, value_index ?f + 1 := 0x01]"
    by simp
  then have "gs ! 0 = [0,5, 0,0, 0,13, 1, 16, 0,0, 0,3, 6, 0,1, 0,1, 0,1]"
    by (simp add: vi)
  with gs have "concat gs = [0,5, 0,0, 0,13, 1, 16, 0,0, 0,3, 6, 0,1, 0,1, 0,1]"
    by (metis concat.simps(1) concat.simps(2) append_Nil2)
  with out wf cov show ?thesis
    by simp
qed

text \<open>
  When the buffer consists of well-formed frames \<open>fs\<close> and nothing else, every frame whose
  function code is not 16, or whose register range does not cover the protected register, is
  returned byte for byte as it came in; in particular its transaction identifier is unchanged.
\<close>

theorem other_frames_forwarded_unchanged:
  assumes "\<forall>f \<in> set fs. well_formed_frame f"
  shows "\<exists>gs. fst (process_modbus_payload latest (concat fs)) = Inr (concat gs) \<and>
           length gs = length fs \<and>
           (\<forall>i < length fs. \<not> covers_protected (fs ! i) \<longrightarrow>
              gs ! i = fs ! i \<and> be16 (gs ! i) 0 = be16 (fs ! i) 0)"
proof (intro exI conjI allI impI)
  show "fst (process_modbus_payload latest (concat fs)) = Inr (concat (map relay fs))"
    by (simp add: process_frames [OF assms])
  show "length (map relay fs) = length fs"
    by simp
next
  fix i
  assume "i < length fs" and "\<not> covers_protected (fs ! i)"
  then show "map relay fs ! i = fs ! i" "be16 (map relay fs ! i) 0 = be16 (fs ! i) 0"
    by (simp_all add: relay_def)
qed

theorem other_frames_forwarded_unchanged_witness:
  "well_formed_frame [0,5, 0,0, 0,6, 1, 3, 0,0, 0,3] \<and>
   \<not> covers_protected [0,5, 0,0, 0,6, 1, 3, 0,0, 0,3] \<and>
   well_formed_frame [0,6, 0,0, 0,9, 1, 16, 0,100, 0,1, 2, 0,1] \<and>
   \<not> covers_protected [0,6, 0,0, 0,9, 1, 16, 0,100, 0,1, 2, 0,1] \<and>
   fst (process_modbus_payload 0
          ([0,5, 0,0, 0,6, 1, 3, 0,0, 0,3] @ [0,6, 0,0, 0,9, 1, 16, 0,100, 0,1, 2, 0,1])) =
     Inr ([0,5, 0,0, 0,6, 1, 3, 0,0, 0,3] @ [0,6, 0,0, 0,9, 1, 16, 0,100, 0,1, 2, 0,1])"
proof -
  let ?f = "[0,5, 0,0, 0,6, 1, 3, 0,0, 0,3] :: byte list"
  let ?g = "[0,6, 0,0, 0,9, 1, 16, 0,100, 0,1, 2, 0,1] :: byte list"
  have ncf: "\<not> covers_protected ?f" and ncg: "\<not> covers_protected ?g"
    by (simp_all add: covers_protected_def be16_def SIG_BC_HR_ADDR_def)
  have wff: "well_formed_frame ?f" and wfg: "well_formed_frame ?g"
    using ncf ncg by (simp_all add: well_formed_frame_def complete_frame_def be16_def)
  then have "\<forall>f \<in> set [?f, ?g]. well_formed_frame f"
    by simp
  from other_frames_forwarded_unchanged [OF this, of 0]
  obtain gs where out: "fst (process_modbus_payload 0 (concat [?f, ?g])) = Inr (concat gs)"
    and len: "length gs = length [?f, ?g]"
    and same: "\<forall>i < length [?f, ?g]. \<not> covers_protected ([?f, ?g] ! i) \<longrightarrow>
                 gs ! i = [?f, ?g] ! i \<and> be16 (gs ! i) 0 = be16 ([?f, ?g] ! i) 0"
    by blast
  from len have gs: "gs = [gs ! 0, gs ! 1]"
    using pair_list [of gs] by simp
  from same ncf have g0: "gs ! 0 = ?f"
    by (metis length_Cons nth_Cons_0 zero_less_Suc)
  from same ncg have g1: "gs ! 1 = ?g"
    by (metis One_nat_def length_Cons lessI nth_Cons_0 nth_Cons_Suc list.size(3) Suc_less_eq zero_less_Suc)
  from gs g0 g1 have "concat gs = ?f @ ?g"
    by (metis concat.simps(1) concat.simps(2) append_Nil2)
  with out wff wfg ncf ncg show ?thesis
    by simp
qed

text \<open>
  Claim C7 at a failing input. A complete write-single-register request (function code 6, so
  not a write-multiple-registers request) followed by the first seven bytes of the next frame,
  as one read of the stream can return them: the header of the fragment is parsed, its clamped
  slice has an empty PDU, \<^verbatim>\<open>pdu[0]\<close> raises an index error and no output is returned, so the
  complete frame is not forwarded at all.
\<close>

theorem complete_frame_lost_with_fragment:
  "complete_frame [0,5, 0,0, 0,6, 1, 6, 0,0, 0,1] \<and>
   [0,5, 0,0, 0,6, 1, 6, 0,0, 0,1] ! 7 = (6 :: byte) \<and>
   \<not> covers_protected [0,5, 0,0, 0,6, 1, 6, 0,0, 0,1] \<and>
   process_modbus_payload 0 ([0,5, 0,0, 0,6, 1, 6, 0,0, 0,1] @ [0,6, 0,0, 0,6, 1]) =
     (Inl IndexError, 6)"
  by (simp add: complete_frame_def covers_protected_def
      process_modbus_payload_def process_loop.simps unpack_HHHB_def be16_def process_frame_def)

text \<open>
  Claim C8 at a failing input. A complete read request followed by the first three bytes of
  the next frame: the loop stops because fewer than seven bytes remain and returns the first
  frame only, so the three trailing bytes are lost. With the first seven bytes of the next
  frame instead, the empty PDU raises an index error and nothing is returned.
\<close>

theorem short_trailing_bytes_dropped:
  "process_modbus_payload 0 ([0,5, 0,0, 0,6, 1, 3, 0,0, 0,3] @ [0,6, 0]) =
     (Inr [0,5, 0,0, 0,6, 1, 3, 0,0, 0,3], 5) \<and>
   process_modbus_payload 0 ([0,5, 0,0, 0,6, 1, 3, 0,0, 0,3] @ [0,6, 0,0, 0,6, 1]) =
     (Inl IndexError, 6)"
  by (simp add: process_modbus_payload_def process_loop.simps unpack_HHHB_def be16_def
      process_frame_def)

text \<open>
  Claim C9 at a failing input. After a relayed frame with transaction identifier 65535 the
  injected frame carries the identifier 1, not \<open>(65535 + 1) mod 2 ^ 16 = 0\<close>: the console
  reduces modulo 65535. After 65534 it carries 0.
\<close>

theorem manual_tid_wraps_at_65535:
  "snd (process_modbus_payload 0 [255,255, 0,0, 0,6, 1, 3, 0,0, 0,3]) = 65535 \<and>
   manual_tid 65535 = 1 \<and> manual_tid 65535 \<noteq> (65535 + 1) mod 2 ^ 16 \<and>
   manual_tid 65534 = 0 \<and>
   manual_packet 65535 1 = Inr [0,1, 0,0, 0,6, 1, 6, 0,1, 0,1]"
  by (simp add: process_modbus_payload_def process_loop.simps unpack_HHHB_def be16_def
      process_frame_def manual_packet_def manual_tid_def pack_H_def pack_B_def
      UNIT_ID_def SIG_BC_HR_ADDR_def)

section \<open>Properties of the simulator's communication loop\<close>

lemma emits_only_refl [simp]: "emits_only R io io"
  by (simp add: emits_only_def)

lemma emits_only_trans:
  "emits_only R io io' \<Longrightarrow> emits_only R' io' io'' \<Longrightarrow> emits_only (R \<union> R') io io''"
  by (auto simp: emits_only_def)

lemma emits_only_mono: "emits_only R io io' \<Longrightarrow> R \<subseteq> R' \<Longrightarrow> emits_only R' io io'"
  by (auto simp: emits_only_def)

lemma plc_close_emits: "emits_only {Close} io (plc_close io)"
  by (simp add: emits_only_def plc_close_def)

lemma reconnect_emits: "emits_only {Connect, Close} io (reconnect E io)"
  by (simp add: emits_only_def reconnect_def plc_connect_def plc_close_def)

lemma write_registers_emits:
  "emits_only {WriteRegisters addr vs} io (snd (write_registers E addr vs io))"
  by (simp add: emits_only_def write_registers_def issue_def split: reply.splits)

lemma write_crash_only_emits:
  "emits_only {WriteRegisters HR_IN_CRASH [if v \<noteq> 0 then 1 else 0]} io (snd (write_crash_only E v io))"
  unfolding write_crash_only_def by (rule write_registers_emits)

lemma reset_all_quiet:
  "reset_all E (st, io) = (st', io') \<Longrightarrow> trace io' = trace io \<and> \<not> crash_active st'"
  by (auto simp: reset_all_def time_time_def recompute_occ_auto_def set_all_signals_red_def Let_def
      split: prod.splits)

lemma crash_push_emits:
  assumes "crash_push E (st, io) = (st', io')"
  shows "emits_only {Connect, Close, WriteRegisters HR_IN_CRASH [1]} io io' \<and>
         crash_active st' = crash_active st \<and>
         (\<not> crash_active st \<longrightarrow> io' = io)"
proof (cases "crash_active st \<and> \<not> crash_sent_to_plc st")
  case False
  with assms show ?thesis
    by (auto simp: crash_push_def)
next
  case True
  have r: "emits_only {Connect, Close} io (reconnect E io)"
    by (rule reconnect_emits)
  have w: "emits_only {WriteRegisters HR_IN_CRASH [1]} (reconnect E io)
             (snd (write_crash_only E 1 (reconnect E io)))"
    using write_crash_only_emits [of 1 "reconnect E io" E] by simp
  from emits_only_trans [OF r w]
  have rw: "emits_only {Connect, Close, WriteRegisters HR_IN_CRASH [1]} io
              (snd (write_crash_only E 1 (reconnect E io)))"
    by (simp add: insert_commute)
  from r have r': "emits_only {Connect, Close, WriteRegisters HR_IN_CRASH [1]} io (reconnect E io)"
    by (rule emits_only_mono) auto
  from True assms rw r' show ?thesis
    by (auto simp: crash_push_def Let_def split: if_splits prod.splits)
qed


lemma plc_comms_off: "plc_comms E now False (st, io) = (None, st, io)"
  by (simp add: plc_comms_def)

lemma plc_comms_crash:
  assumes "crash_active st" and "plc_comms E now c (st, io) = (r, st', io')"
  shows "emits_only {Connect, Close, ReadCoils CO_TURNOUT_MAIN 2, ReadHolding HR_MODE 1} io io' \<and>
         crash_active st'"
  using assms
  by (auto simp: plc_comms_def effective_manual_def reconnect_def plc_connect_def plc_close_def
      read_coils_basic_def read_holding_def issue_def emits_only_def Let_def
      split: if_splits prod.splits reply.splits list.splits option.splits sum.splits)

lemma handle_event_blackout:
  assumes "\<not> crash_active st" and "handle_event E False ev (st, io) = (r, st', io')"
  shows "emits_only {Close} io io' \<and> \<not> crash_active st'"
proof (cases ev)
  case QUIT
  with assms show ?thesis
    using plc_close_emits [of io] by (auto simp: handle_event_def)
next
  case (KEYDOWN k)
  show ?thesis
  proof (cases k)
    case K_ESCAPE
    with KEYDOWN assms show ?thesis
      using plc_close_emits [of io] by (auto simp: handle_event_def)
  next
    case K_SPACE
    with KEYDOWN assms obtain "reset_all E (st, io) = (st', io')"
      by (auto simp: handle_event_def split: prod.splits)
    from reset_all_quiet [OF this] show ?thesis
      by (simp add: emits_only_def)
  next
    case K_m
    with KEYDOWN assms show ?thesis
      by (auto simp: handle_event_def Let_def split: if_splits)
  next
    case K_t
    with KEYDOWN assms show ?thesis
      by (auto simp: handle_event_def)
  next
    case K_other
    with KEYDOWN assms show ?thesis
      by (auto simp: handle_event_def)
  qed
next
  case OTHER_EVENT
  with assms show ?thesis
    by (auto simp: handle_event_def)
qed

lemma handle_events_blackout:
  assumes "\<not> crash_active st" and "handle_events E False evs (st, io) = (r, st', io')"
  shows "emits_only {Close} io io' \<and> \<not> crash_active st'"
  using assms
proof (induction evs arbitrary: st io)
  case Nil
  then show ?case by simp
next
  case (Cons ev evs)
  obtain r1 st1 io1 where h: "handle_event E False ev (st, io) = (r1, st1, io1)"
    by (metis prod_cases3)
  from handle_event_blackout [OF Cons.prems(1) h]
  have e1: "emits_only {Close} io io1" and c1: "\<not> crash_active st1"
    by simp_all
  show ?case
  proof (cases r1)
    case (Some e)
    with h Cons.prems(2) e1 c1 show ?thesis by simp
  next
    case None
    with h Cons.prems(2) have "handle_events E False evs (st1, io1) = (r, st', io')"
      by simp
    from Cons.IH [OF c1 this] emits_only_trans [OF e1] show ?thesis
      by fastforce
  qed
qed

lemma handle_event_crash:
  assumes "crash_active st" and "ev \<noteq> KEYDOWN K_SPACE"
    and "handle_event E c ev (st, io) = (r, st', io')"
  shows "emits_only {Close} io io' \<and> crash_active st'"
proof (cases ev)
  case QUIT
  with assms show ?thesis
    using plc_close_emits [of io] by (auto simp: handle_event_def)
next
  case (KEYDOWN k)
  with assms show ?thesis
    using plc_close_emits [of io] by (cases k) (auto simp: handle_event_def)
next
  case OTHER_EVENT
  with assms show ?thesis
    by (auto simp: handle_event_def)
qed

lemma handle_events_crash:
  assumes "crash_active st" and "KEYDOWN K_SPACE \<notin> set evs"
    and "handle_events E c evs (st, io) = (r, st', io')"
  shows "emits_only {Close} io io' \<and> crash_active st'"
  using assms
proof (induction evs arbitrary: st io)
  case Nil
  then show ?case by simp
next
  case (Cons ev evs)
  obtain r1 st1 io1 where h: "handle_event E c ev (st, io) = (r1, st1, io1)"
    by (metis prod_cases3)
  from Cons.prems(2) have ne: "ev \<noteq> KEYDOWN K_SPACE" and rest: "KEYDOWN K_SPACE \<notin> set evs"
    by auto
  from handle_event_crash [OF Cons.prems(1) ne h]
  have e1: "emits_only {Close} io io1" and c1: "crash_active st1"
    by simp_all
  show ?case
  proof (cases r1)
    case (Some e)
    with h Cons.prems(3) e1 c1 show ?thesis by simp
  next
    case None
    with h Cons.prems(3) have "handle_events E c evs (st1, io1) = (r, st', io')"
      by simp
    from Cons.IH [OF c1 rest this] emits_only_trans [OF e1] show ?thesis
      by fastforce
  qed
qed

lemma crash_reset_idle: "\<not> crash_active st \<Longrightarrow> crash_reset E now (st, io) = (st, io)"
  by (simp add: crash_reset_def)

lemma crash_reset_emits:
  assumes "crash_reset E now (st, io) = (st', io')"
  shows "emits_only {Connect, Close, WriteRegisters HR_IN_CRASH [0]} io io'"
  using assms
  by (auto simp: crash_reset_def reset_all_def time_time_def reconnect_def plc_connect_def
      plc_close_def write_crash_only_def write_registers_def issue_def emits_only_def Let_def
      split: if_splits prod.splits reply.splits)

lemma loop_tick_sections:
  assumes "st1 = st\<lparr>need_resync :=
                        (need_resync st \<or> (\<not> prev_comms_enabled st \<and> comms_enabled st now)),
                      prev_comms_enabled := comms_enabled st now\<rparr>"
  shows "loop_tick E now evs (st, io) =
           (case crash_push E (st1, io) of
              (st2, io2) \<Rightarrow>
                (case plc_comms E now (comms_enabled st now) (st2, io2) of
                   (Some e, st3, io3) \<Rightarrow> (Some e, st3, io3)
                 | (None, st3, io3) \<Rightarrow>
                     (case handle_events E (comms_enabled st now) evs (st3, io3) of
                        (Some e, st4, io4) \<Rightarrow> (Some e, st4, io4)
                      | (None, st4, io4) \<Rightarrow>
                          (let (st5, io5) = crash_reset E now (st4, io4)
                           in (None, st5, io5)))))"
  unfolding assms by (simp add: loop_tick_def Let_def)

lemma loop_tick_blackout:
  assumes "now < wait_until st" and "\<not> crash_active st"
  shows "emits_only {Close} io (snd (snd (loop_tick E now evs (st, io))))"
proof -
  define st1 where "st1 = st\<lparr>need_resync :=
                        (need_resync st \<or> (\<not> prev_comms_enabled st \<and> comms_enabled st now)),
                      prev_comms_enabled := comms_enabled st now\<rparr>"
  note lt = loop_tick_sections [OF st1_def]
  from assms have off: "comms_enabled st now = False"
    by (simp add: comms_enabled_def in_wait_window_def)
  have nc: "\<not> crash_active st1"
    using assms(2) by (simp add: st1_def)
  then have push: "crash_push E (st1, io) = (st1, io)"
    by (simp add: crash_push_def)
  obtain r st4 io4 where ev: "handle_events E False evs (st1, io) = (r, st4, io4)"
    by (metis prod_cases3)
  from handle_events_blackout [OF nc ev]
  have e4: "emits_only {Close} io io4" and c4: "\<not> crash_active st4"
    by simp_all
  have "snd (snd (loop_tick E now evs (st, io))) = io4"
    by (cases r) (simp_all add: lt off push plc_comms_off ev crash_reset_idle [OF c4])
  with e4 show ?thesis by simp
qed

lemma loop_tick_crash:
  assumes "crash_active st" and "KEYDOWN K_SPACE \<notin> set evs"
  shows "emits_only {Connect, Close, ReadCoils CO_TURNOUT_MAIN 2, ReadHolding HR_MODE 1,
                     WriteRegisters HR_IN_CRASH [1], WriteRegisters HR_IN_CRASH [0]}
           io (snd (snd (loop_tick E now evs (st, io))))"
    (is "emits_only ?R io _")
proof -
  define st1 where "st1 = st\<lparr>need_resync :=
                        (need_resync st \<or> (\<not> prev_comms_enabled st \<and> comms_enabled st now)),
                      prev_comms_enabled := comms_enabled st now\<rparr>"
  note lt = loop_tick_sections [OF st1_def]
  from assms have on: "comms_enabled st now = True"
    by (simp add: comms_enabled_def)
  have c1: "crash_active st1"
    using assms(1) by (simp add: st1_def)
  obtain st2 io2 where push: "crash_push E (st1, io) = (st2, io2)"
    by (metis surj_pair)
  from crash_push_emits [OF push] c1
  have e2: "emits_only {Connect, Close, WriteRegisters HR_IN_CRASH [1]} io io2"
    and c2: "crash_active st2"
    by simp_all
  obtain r3 st3 io3 where comms: "plc_comms E now True (st2, io2) = (r3, st3, io3)"
    by (metis prod_cases3)
  from plc_comms_crash [OF c2 comms]
  have e3: "emits_only {Connect, Close, ReadCoils CO_TURNOUT_MAIN 2, ReadHolding HR_MODE 1} io2 io3"
    and c3: "crash_active st3"
    by simp_all
  from emits_only_trans [OF e2 e3] have e23: "emits_only ?R io io3"
    by (rule emits_only_mono) auto
  show ?thesis
  proof (cases r3)
    case (Some e)
    then have "snd (snd (loop_tick E now evs (st, io))) = io3"
      by (simp add: lt on push comms)
    with e23 show ?thesis by simp
  next
    case None
    obtain r4 st4 io4 where ev: "handle_events E True evs (st3, io3) = (r4, st4, io4)"
      by (metis prod_cases3)
    from handle_events_crash [OF c3 assms(2) ev]
    have e4: "emits_only {Close} io3 io4"
      by simp
    from emits_only_trans [OF e23 e4] have e234: "emits_only ?R io io4"
      by (rule emits_only_mono) auto
    show ?thesis
    proof (cases r4)
      case (Some e)
      with None have "snd (snd (loop_tick E now evs (st, io))) = io4"
        by (simp add: lt on push comms ev)
      with e234 show ?thesis by simp
    next
      case None': None
      obtain st5 io5 where rs: "crash_reset E now (st4, io4) = (st5, io5)"
        by (metis surj_pair)
      from crash_reset_emits [OF rs]
      have e5: "emits_only {Connect, Close, WriteRegisters HR_IN_CRASH [0]} io4 io5" .
      from emits_only_trans [OF e234 e5] have e: "emits_only ?R io io5"
        by (rule emits_only_mono) auto
      from None None' have "snd (snd (loop_tick E now evs (st, io))) = io5"
        by (simp add: lt on push comms ev rs)
      with e show ?thesis by simp
    qed
  qed
qed

text \<open>
  Take a pass through the loop whose clock reading lies before \<open>wait_until\<close>.
  If no collision is active (the pass is inside a wait window), the client is called for
  nothing but the socket close of a quit event: no register or coil is read or written, so no
  occupancy or signal publish, no turnout toggle and no resynchronisation happens. If a
  collision is active and the operator does not reset the simulation in this pass, the only
  writes are the single-register writes of the crash flag (1 by the crash push, 0 by the crash
  reset); beside them the client only reconnects and polls the coils and the mode register.
\<close>

theorem blackout_no_remote_write:
  assumes "now < wait_until st"
  shows "(in_wait_window st now \<longrightarrow>
            emits_only {Close} io (snd (snd (loop_tick E now evs (st, io))))) \<and>
         (crash_active st \<and> KEYDOWN K_SPACE \<notin> set evs \<longrightarrow>
            emits_only {Connect, Close, ReadCoils CO_TURNOUT_MAIN 2, ReadHolding HR_MODE 1,
                        WriteRegisters HR_IN_CRASH [1], WriteRegisters HR_IN_CRASH [0]}
              io (snd (snd (loop_tick E now evs (st, io)))))"
  using loop_tick_blackout [OF assms] loop_tick_crash
  by (simp add: in_wait_window_def split: if_splits)

theorem blackout_no_remote_write_witness:
  "(10 :: real) < wait_until example_sim \<and> in_wait_window example_sim 10 \<and>
   emits_only {Close} example_io
     (snd (snd (loop_tick example_env 10 [KEYDOWN K_t, KEYDOWN K_m, QUIT] (example_sim, example_io)))) \<and>
   crash_active (example_sim\<lparr>crash_active := True\<rparr>) \<and>
   KEYDOWN K_SPACE \<notin> set [KEYDOWN K_t] \<and>
   emits_only {Connect, Close, ReadCoils CO_TURNOUT_MAIN 2, ReadHolding HR_MODE 1,
               WriteRegisters HR_IN_CRASH [1], WriteRegisters HR_IN_CRASH [0]} example_io
     (snd (snd (loop_tick example_env 10 [KEYDOWN K_t] (example_sim\<lparr>crash_active := True\<rparr>, example_io))))"
proof -
  have w: "(10 :: real) < wait_until example_sim" "(10 :: real) < wait_until (example_sim\<lparr>crash_active := True\<rparr>)"
    by (simp_all add: example_sim_def)
  have c: "in_wait_window example_sim 10"
    by (simp add: in_wait_window_def example_sim_def)
  from blackout_no_remote_write [OF w(1), of example_io example_env "[KEYDOWN K_t, KEYDOWN K_m, QUIT]"]
    blackout_no_remote_write [OF w(2), of example_io example_env "[KEYDOWN K_t]"] w c
  show ?thesis by simp
qed

text \<open>
  Claim C4 at a failing input. The pass starts at time 10 outside any wait window
  (\<open>wait_until = 9\<close>, no collision, client connected, poll not yet due), so \<^verbatim>\<open>comms_on\<close> is
  computed as true. The events of the pass are SPACE followed by T. SPACE runs
  \<^verbatim>\<open>reset_all\<close>, which starts a fresh wait window (\<open>wait_until = 13\<close>): after a pass with
  SPACE alone the simulator is inside the window and has called the client for nothing. T is
  then tested against the value of \<^verbatim>\<open>comms_on\<close> computed before the reset, so
  \<^verbatim>\<open>toggle_turnout\<close> reads coil 0 and writes it, inside the window that has just begun.
\<close>

theorem toggle_after_reset_inside_window:
  "comms_enabled (example_sim\<lparr>wait_until := 9, last_plc := 10\<rparr>) 10 \<and>
   \<not> crash_active (example_sim\<lparr>wait_until := 9, last_plc := 10\<rparr>) \<and>
   trace (snd (snd (loop_tick example_env 10 [KEYDOWN K_SPACE]
     (example_sim\<lparr>wait_until := 9, last_plc := 10\<rparr>, example_io)))) = [] \<and>
   in_wait_window (fst (snd (loop_tick example_env 10 [KEYDOWN K_SPACE]
     (example_sim\<lparr>wait_until := 9, last_plc := 10\<rparr>, example_io)))) 10 \<and>
   trace (snd (snd (loop_tick example_env 10 [KEYDOWN K_SPACE, KEYDOWN K_t]
     (example_sim\<lparr>wait_until := 9, last_plc := 10\<rparr>, example_io)))) =
     [ReadCoils CO_TURNOUT_MAIN 1, WriteCoils CO_TURNOUT_MAIN [0]] \<and>
   in_wait_window (fst (snd (loop_tick example_env 10 [KEYDOWN K_SPACE, KEYDOWN K_t]
     (example_sim\<lparr>wait_until := 9, last_plc := 10\<rparr>, example_io)))) 10"
  by (simp add: loop_tick_def comms_enabled_def in_wait_window_def crash_push_def plc_comms_def
      PLC_POLL_SEC_def handle_event_def reset_all_def set_all_signals_red_def
      recompute_occ_auto_def time_time_def WAIT_SEC_def toggle_turnout_def issue_def
      crash_reset_def example_sim_def example_env_def example_io_def Let_def)

end
